theory Spec2Isabelle
  imports Main "HOL-Library.Sublist"
begin

section \<open>Strings\<close>

text \<open>
  A Python \<^verbatim>\<open>str\<close> is a sequence of Unicode code points; \<^verbatim>\<open>len\<close>, indexing, slicing
  and the regular-expression engine all count code points. A string is therefore a list
  of code points, and an ASCII literal is read through \<open>ascii\<close>.
\<close>

type_synonym codepoint = nat
type_synonym ustr = "codepoint list"

definition ascii :: "string \<Rightarrow> ustr" where
  "ascii cs = map of_char cs"

text \<open>Python's \<^verbatim>\<open>s[a:b]\<close> for \<open>a \<le> b\<close>.\<close>

definition slice :: "ustr \<Rightarrow> nat \<Rightarrow> nat \<Rightarrow> ustr" where
  "slice s a b = take (b - a) (drop a s)"

text \<open>Python's \<^verbatim>\<open>sub in s\<close> on strings: \<open>sub\<close> occurs in \<open>s\<close> as a contiguous block.\<close>

definition str_contains :: "ustr \<Rightarrow> ustr \<Rightarrow> bool" where
  "str_contains sub s = sublist sub s"

section \<open>The pattern \<^verbatim>\<open>\b([A-Z]{1,5})\b\<close>\<close>

text \<open>
  \<^verbatim>\<open>[A-Z]\<close> is the ASCII range \<open>65..90\<close>. For a \<^verbatim>\<open>str\<close> pattern \<^verbatim>\<open>\w\<close> is Unicode aware: the
  underscore or an alphanumeric code point. On ASCII that is \<^verbatim>\<open>[a-zA-Z0-9_]\<close>; beyond
  ASCII it is a table of the Unicode database, which is no part of the repository and is
  taken as the parameter \<open>ualnum\<close>.
\<close>

definition is_upper :: "codepoint \<Rightarrow> bool" where
  "is_upper c = (65 \<le> c \<and> c \<le> 90)"

definition is_word :: "(codepoint \<Rightarrow> bool) \<Rightarrow> codepoint \<Rightarrow> bool" where
  "is_word ualnum c =
     (if c < 128
      then (48 \<le> c \<and> c \<le> 57) \<or> (65 \<le> c \<and> c \<le> 90) \<or> (97 \<le> c \<and> c \<le> 122) \<or> c = 95
      else ualnum c)"

text \<open>
  \<^verbatim>\<open>\b\<close> at position \<open>i\<close>: the character before and the character at \<open>i\<close> differ in being
  word characters, where the outside of the string counts as a non-word character.
\<close>

definition boundary_at :: "(codepoint \<Rightarrow> bool) \<Rightarrow> ustr \<Rightarrow> nat \<Rightarrow> bool" where
  "boundary_at ualnum s i =
     ((0 < i \<and> i \<le> length s \<and> is_word ualnum (s ! (i - 1)))
      \<noteq> (i < length s \<and> is_word ualnum (s ! i)))"

text \<open>
  The greedy repetition \<^verbatim>\<open>[A-Z]{1,5}\<close> at position \<open>pos\<close> first takes as many capitals as
  there are, at most five.
\<close>

definition upper_count :: "ustr \<Rightarrow> nat \<Rightarrow> nat" where
  "upper_count s pos = length (takeWhile is_upper (take 5 (drop pos s)))"

text \<open>
  With \<open>k\<close> capitals taken the engine tries the closing \<^verbatim>\<open>\b\<close>; when that fails it gives
  one capital back and tries again, down to one capital. The result is the end position
  of the match.
\<close>

fun backtrack :: "(codepoint \<Rightarrow> bool) \<Rightarrow> ustr \<Rightarrow> nat \<Rightarrow> nat \<Rightarrow> nat option" where
  "backtrack ualnum s pos 0 = None"
| "backtrack ualnum s pos (Suc k) =
     (if boundary_at ualnum s (pos + Suc k) then Some (pos + Suc k)
      else backtrack ualnum s pos k)"

definition match_at :: "(codepoint \<Rightarrow> bool) \<Rightarrow> ustr \<Rightarrow> nat \<Rightarrow> nat option" where
  "match_at ualnum s pos =
     (if boundary_at ualnum s pos then backtrack ualnum s pos (upper_count s pos) else None)"

text \<open>
  \<^verbatim>\<open>re.findall\<close> scans from left to right: a match at \<open>pos\<close> contributes its group and the
  scan goes on at the end of the match; without a match the scan moves one position on.
\<close>

function findall_from :: "(codepoint \<Rightarrow> bool) \<Rightarrow> ustr \<Rightarrow> nat \<Rightarrow> ustr list" where
  "findall_from ualnum s pos =
     (if length s < pos then []
      else (case match_at ualnum s pos of
              Some e \<Rightarrow> slice s pos e # findall_from ualnum s e
            | None \<Rightarrow> findall_from ualnum s (Suc pos)))"
  by pat_completeness auto
termination
proof (relation "measure (\<lambda>(ualnum, s, pos). Suc (length s) - pos)")
  fix ualnum :: "codepoint \<Rightarrow> bool" and s :: ustr and pos e :: nat
  assume inside: "\<not> length s < pos" and m: "match_at ualnum s pos = Some e"
  have "backtrack ualnum s pos k = Some e \<Longrightarrow> pos < e" for k
    by (induction k) (auto split: if_splits)
  with m have "pos < e"
    by (auto simp: match_at_def split: if_splits)
  with inside show "((ualnum, s, e), (ualnum, s, pos))
      \<in> measure (\<lambda>(ualnum, s, pos). Suc (length s) - pos)"
    by simp
qed simp_all

declare findall_from.simps [simp del]

definition findall :: "(codepoint \<Rightarrow> bool) \<Rightarrow> ustr \<Rightarrow> ustr list" where
  "findall ualnum s = findall_from ualnum s 0"

section \<open>The ticker heuristic\<close>

definition common_non_tickers :: "ustr set" where
  "common_non_tickers =
     {ascii ''CEO'', ascii ''CFO'', ascii ''COO'', ascii ''USA'', ascii ''ETF'',
      ascii ''LLC'', ascii ''INC'', ascii ''API'', ascii ''NEWS''}"

text \<open>The test of the inner \<^verbatim>\<open>if\<close>: the text shows a table separator or a section heading.\<close>

definition context_marker :: "ustr \<Rightarrow> bool" where
  "context_marker s =
     (str_contains (ascii ''---|---|'') s
      \<or> str_contains (ascii ''Recommendation Trend'') s
      \<or> str_contains (ascii ''Financial Data'') s)"

text \<open>
  The \<^verbatim>\<open>for\<close> loop over the candidates. The debugging \<^verbatim>\<open>print\<close> before the return writes
  to the process's standard output and does not influence the result; it is left out.
\<close>

fun ticker_loop :: "ustr \<Rightarrow> ustr list \<Rightarrow> ustr option" where
  "ticker_loop s [] = None"
| "ticker_loop s (ticker # rest) =
     (if ticker \<notin> common_non_tickers
      then (if context_marker s then Some ticker else ticker_loop s rest)
      else ticker_loop s rest)"

definition find_ticker_in_response :: "(codepoint \<Rightarrow> bool) \<Rightarrow> ustr \<Rightarrow> ustr option" where
  "find_ticker_in_response ualnum s =
     (let potential_tickers = findall ualnum s in
      if potential_tickers = [] then None
      else ticker_loop s potential_tickers)"

section \<open>The candidates as the specification describes them\<close>

text \<open>
  A candidate is a run of one to five capitals with a word boundary on each side: at
  position \<open>i\<close>, of length \<open>n\<close>. The candidates of a text are listed by position, from
  left to right.
\<close>

definition candidate_at :: "(codepoint \<Rightarrow> bool) \<Rightarrow> ustr \<Rightarrow> nat \<Rightarrow> nat \<Rightarrow> bool" where
  "candidate_at ualnum s i n =
     (1 \<le> n \<and> n \<le> 5 \<and> i + n \<le> length s
      \<and> list_all is_upper (slice s i (i + n))
      \<and> boundary_at ualnum s i \<and> boundary_at ualnum s (i + n))"

definition candidates_at :: "(codepoint \<Rightarrow> bool) \<Rightarrow> ustr \<Rightarrow> nat \<Rightarrow> ustr list" where
  "candidates_at ualnum s i =
     map (\<lambda>n. slice s i (i + n)) (filter (candidate_at ualnum s i) [1..<6])"

definition candidates_from :: "(codepoint \<Rightarrow> bool) \<Rightarrow> ustr \<Rightarrow> nat \<Rightarrow> ustr list" where
  "candidates_from ualnum s pos = concat (map (candidates_at ualnum s) [pos..<length s])"

definition candidates :: "(codepoint \<Rightarrow> bool) \<Rightarrow> ustr \<Rightarrow> ustr list" where
  "candidates ualnum s = candidates_from ualnum s 0"

text \<open>The qualifying candidates: those outside the exclusion set, in the same order.\<close>

definition qualifying :: "(codepoint \<Rightarrow> bool) \<Rightarrow> ustr \<Rightarrow> ustr list" where
  "qualifying ualnum s = filter (\<lambda>t. t \<notin> common_non_tickers) (candidates ualnum s)"

text \<open>
  The simpler extractor: with a context marker in the text the first extracted candidate
  outside the exclusion set, and nothing otherwise.
\<close>

definition extract_simple :: "(codepoint \<Rightarrow> bool) \<Rightarrow> ustr \<Rightarrow> ustr option" where
  "extract_simple ualnum s =
     (if context_marker s
      then List.find (\<lambda>t. t \<notin> common_non_tickers) (findall ualnum s)
      else None)"


section \<open>Exceptions\<close>

text \<open>
  A raised exception is an instance of \<^verbatim>\<open>BaseException\<close>. Both handlers of the program are
  \<^verbatim>\<open>except Exception as e\<close>: they take the instances of \<^verbatim>\<open>Exception\<close> and let every
  other exception pass (\<^verbatim>\<open>KeyboardInterrupt\<close>, \<^verbatim>\<open>SystemExit\<close>, \<^verbatim>\<open>GeneratorExit\<close> and their
  like). The argument of a constructor is \<^verbatim>\<open>str(e)\<close>, the text the f-strings print.
\<close>

datatype exn = Exception ustr | Other_BaseException ustr

fun exn_str :: "exn \<Rightarrow> ustr" where
  "exn_str (Exception m) = m"
| "exn_str (Other_BaseException m) = m"

fun is_Exception :: "exn \<Rightarrow> bool" where
  "is_Exception (Exception m) = True"
| "is_Exception (Other_BaseException m) = False"

section \<open>The page, the session and the collaborators\<close>

text \<open>
  The calls to the page library are recorded in the order they are made; the library
  itself is outside the repository and its calls are taken to return normally. The flag
  of \<open>St_markdown\<close> is \<^verbatim>\<open>unsafe_allow_html\<close>. A chart is recorded with its title and its
  points.
\<close>

datatype st_call =
    St_write ustr
  | St_markdown ustr bool
  | St_warning ustr
  | St_error ustr
  | St_plotly_chart ustr "(int \<times> int) list"
  | St_chat_message ustr
  | St_empty

text \<open>
  The state an interaction works on: the chat history of the session (role and
  content), the calls made to the page, and the requests made to the chart service, each
  with its \<^verbatim>\<open>tickers\<close> argument.
\<close>

record app =
  messages :: "(ustr \<times> ustr) list"
  page :: "st_call list"
  chart_requests :: "ustr list list"

text \<open>
  The chart service answers \<^verbatim>\<open>get_stock_price(tickers=[ticker])\<close> with an exception or with
  a dictionary from ticker to its price rows (the \<^verbatim>\<open>prices\<close> entry; no rows when the entry
  is missing or empty). A cell of a row is absent, not a number, or a number; numbers
  are only carried through to the chart, so integers stand for them.
\<close>

datatype cell = Absent | NaN | Val int

record price_row =
  timestamp :: cell
  close :: cell

type_synonym stock_data = "(ustr \<times> price_row list) list"

type_synonym chart_service = "ustr list \<Rightarrow> exn + stock_data"

text \<open>
  The agent team answers \<^verbatim>\<open>run(prompt)\<close> with an exception or with a response: an object
  with a \<^verbatim>\<open>content\<close> attribute (a string or \<^verbatim>\<open>None\<close>), a plain string, or another object,
  given by its \<^verbatim>\<open>str\<close>.
\<close>

datatype response = Has_content "ustr option" | Is_str ustr | Other_object ustr

type_synonym agent_team = "ustr \<Rightarrow> exn + response"

definition warning_sign :: ustr where
  "warning_sign = [9888, 65039]"

definition cursor :: ustr where
  "cursor = [9612]"

section \<open>The chart\<close>

definition is_val :: "cell \<Rightarrow> bool" where
  "is_val c = (case c of Val v \<Rightarrow> True | _ \<Rightarrow> False)"

definition the_val :: "cell \<Rightarrow> int" where
  "the_val c = (case c of Val v \<Rightarrow> v | _ \<Rightarrow> 0)"

text \<open>A data frame built from the rows has a column when some row has the key.\<close>

definition has_column :: "(price_row \<Rightarrow> cell) \<Rightarrow> price_row list \<Rightarrow> bool" where
  "has_column col df = (\<exists>r\<in>set df. col r \<noteq> Absent)"

text \<open>\<^verbatim>\<open>dropna\<close> on both columns keeps the rows with a number in each.\<close>

definition dropna :: "price_row list \<Rightarrow> price_row list" where
  "dropna df = filter (\<lambda>r. is_val (timestamp r) \<and> is_val (close r)) df"

definition emit :: "st_call \<Rightarrow> app \<Rightarrow> app" where
  "emit c w = w\<lparr>page := page w @ [c]\<rparr>"

text \<open>
  The result is the state after the call together with the exception that leaves the
  function, if one does.
\<close>

definition display_stock_chart :: "ustr \<Rightarrow> chart_service \<Rightarrow> app \<Rightarrow> app \<times> exn option" where
  "display_stock_chart ticker yf_tools w =
     (let w1 = emit (St_write (ascii ''--- Generating Chart for '' @ ticker @ ascii '' ---'')) w;
          w2 = w1\<lparr>chart_requests := chart_requests w1 @ [[ticker]]\<rparr>
      in case yf_tools [ticker] of
           Inr stock_data \<Rightarrow>
             (if stock_data \<noteq> [] \<and> map_of stock_data ticker \<noteq> None
                 \<and> the (map_of stock_data ticker) \<noteq> []
              then let df = the (map_of stock_data ticker) in
                if \<not> has_column timestamp df \<or> \<not> has_column close df
                then (emit (St_warning (ascii ''Price data for '' @ ticker
                              @ ascii '' is missing expected columns.'')) w2, None)
                else let df' = dropna df in
                  if df' \<noteq> []
                  then (emit (St_plotly_chart (ascii ''Recent Stock Price Trend for '' @ ticker)
                                (map (\<lambda>r. (the_val (timestamp r), the_val (close r))) df')) w2,
                        None)
                  else (emit (St_warning (ascii ''No valid price data points found for ''
                                @ ticker @ ascii '' to plot.'')) w2, None)
              else (emit (St_warning (ascii ''Could not retrieve sufficient stock price data for ''
                            @ ticker @ ascii '' to plot a chart.'')) w2, None))
         | Inl e \<Rightarrow>
             (if is_Exception e
              then (emit (St_error (warning_sign @ ascii '' Error displaying stock chart for ''
                            @ ticker @ ascii '': '' @ exn_str e)) w2, None)
              else (w2, Some e)))"

text \<open>
  The last statement of an interaction: \<^verbatim>\<open>if potential_ticker_for_chart:\<close> holds for a
  string that is not empty.
\<close>

definition maybe_trigger_chart :: "ustr option \<Rightarrow> chart_service \<Rightarrow> app \<Rightarrow> app \<times> exn option" where
  "maybe_trigger_chart potential_ticker_for_chart yf_tools w =
     (case potential_ticker_for_chart of
        None \<Rightarrow> (w, None)
      | Some ticker \<Rightarrow>
          if ticker \<noteq> [] then display_stock_chart ticker yf_tools w else (w, None))"

section \<open>One interaction\<close>

fun response_content :: "response \<Rightarrow> ustr option" where
  "response_content (Has_content c) = c"
| "response_content (Is_str s) = Some s"
| "response_content (Other_object r) = Some r"

text \<open>
  The streaming loop: for \<open>i = 0, 5, 10, \<dots>\<close> below the length, the first \<open>i + 5\<close>
  characters followed by the cursor. The pause between two chunks changes no state.
\<close>

definition stream_calls :: "ustr \<Rightarrow> st_call list" where
  "stream_calls c =
     map (\<lambda>k. St_markdown (take (5 * k + 5) c @ cursor) True) [0..<(length c + 4) div 5]"

text \<open>
  The body of the \<^verbatim>\<open>try\<close>: it ends with the state, the content and the ticker, or with
  an exception. An exception comes from the agent run or from \<^verbatim>\<open>len\<close> of a content that
  is \<^verbatim>\<open>None\<close>, both before the body has touched the page.
\<close>

definition agent_step ::
  "agent_team \<Rightarrow> (codepoint \<Rightarrow> bool) \<Rightarrow> ustr \<Rightarrow> app \<Rightarrow> exn + (app \<times> ustr \<times> ustr option)" where
  "agent_step agent_run ualnum prompt w =
     (case agent_run prompt of
        Inl e \<Rightarrow> Inl e
      | Inr response \<Rightarrow>
          (case response_content response of
             None \<Rightarrow> Inl (Exception (ascii ''object of type '' @ [39] @ ascii ''NoneType''
                                       @ [39] @ ascii '' has no len()''))
           | Some full_response_content \<Rightarrow>
               Inr (w\<lparr>page := page w @ stream_calls full_response_content
                              @ [St_markdown full_response_content True]\<rparr>,
                    full_response_content,
                    find_ticker_in_response ualnum full_response_content)))"

text \<open>The two statements after the \<^verbatim>\<open>try\<close>: record the answer, then the chart.\<close>

definition record_and_chart :: "chart_service \<Rightarrow> ustr \<Rightarrow> ustr option \<Rightarrow> app \<Rightarrow> app \<times> exn option" where
  "record_and_chart yf_tools full_response_content potential_ticker_for_chart w =
     maybe_trigger_chart potential_ticker_for_chart yf_tools
       (w\<lparr>messages := messages w @ [(ascii ''assistant'', full_response_content)]\<rparr>)"

text \<open>The body of \<^verbatim>\<open>if prompt := st.chat_input(...)\<close> in \<^verbatim>\<open>main\<close>, for a submitted prompt.\<close>

definition handle_prompt ::
  "agent_team \<Rightarrow> chart_service \<Rightarrow> (codepoint \<Rightarrow> bool) \<Rightarrow> ustr \<Rightarrow> app \<Rightarrow> app \<times> exn option" where
  "handle_prompt agent_run yf_tools ualnum prompt w =
     (let w1 = w\<lparr>messages := messages w @ [(ascii ''user'', prompt)]\<rparr>;
          w2 = w1\<lparr>page := page w1 @ [St_chat_message (ascii ''user''), St_markdown prompt False,
                                      St_chat_message (ascii ''assistant''), St_empty]\<rparr>
      in case agent_step agent_run ualnum prompt w2 of
           Inr (w3, full_response_content, potential_ticker_for_chart) \<Rightarrow>
             record_and_chart yf_tools full_response_content potential_ticker_for_chart w3
         | Inl e \<Rightarrow>
             (if is_Exception e
              then let full_response_content =
                         ascii ''Sorry, I encountered an error processing your request: ''
                           @ exn_str e;
                       w3 = w2\<lparr>page := page w2
                              @ [St_error (warning_sign @ ascii '' An error occurred: '' @ exn_str e),
                                 St_markdown full_response_content False]\<rparr>
                   in record_and_chart yf_tools full_response_content None w3
              else (w2, Some e)))"

section \<open>The scan finds exactly the candidates\<close>

lemma is_upper_word: "is_upper c \<Longrightarrow> is_word ualnum c"
  by (auto simp: is_upper_def is_word_def)

lemma slice_upper_iff:
  "i + n \<le> length s \<Longrightarrow> list_all is_upper (slice s i (i + n)) \<longleftrightarrow> (\<forall>j<n. is_upper (s ! (i + j)))"
  by (auto simp: slice_def list_all_length)

lemma upper_count_le: "upper_count s pos \<le> 5"
proof -
  have "length (takeWhile is_upper (take 5 (drop pos s))) \<le> length (take 5 (drop pos s))"
    by (rule length_takeWhile_le)
  then show ?thesis by (simp add: upper_count_def)
qed

lemma upper_count_in: "pos + upper_count s pos \<le> max pos (length s)"
proof -
  have "length (takeWhile is_upper (take 5 (drop pos s))) \<le> length (take 5 (drop pos s))"
    by (rule length_takeWhile_le)
  then show ?thesis by (auto simp: upper_count_def)
qed

lemma upper_count_upper:
  assumes "j < upper_count s pos"
  shows "is_upper (s ! (pos + j))"
proof -
  let ?xs = "take 5 (drop pos s)"
  from assms have j: "j < length (takeWhile is_upper ?xs)" by (simp add: upper_count_def)
  then have "is_upper (takeWhile is_upper ?xs ! j)"
    using nth_mem set_takeWhileD by metis
  moreover have "takeWhile is_upper ?xs ! j = ?xs ! j"
    using j by (rule takeWhile_nth)
  moreover have "j < length ?xs"
    using j length_takeWhile_le [of is_upper ?xs] by linarith
  ultimately show ?thesis by auto
qed

lemma upper_count_eq:
  assumes "n \<le> 5" "pos + n \<le> length s" "\<forall>j<n. is_upper (s ! (pos + j))"
    and "pos + n = length s \<or> \<not> is_upper (s ! (pos + n)) \<or> n = 5"
  shows "upper_count s pos = n"
proof -
  let ?xs = "take 5 (drop pos s)"
  have len: "length ?xs = min 5 (length s - pos)" by simp
  have "takeWhile is_upper ?xs = take n ?xs"
  proof (rule takeWhile_eq_take_P_nth)
    fix i assume "i < n" "i < length ?xs"
    then show "is_upper (?xs ! i)" using assms(1-3) by auto
  next
    assume "n < length ?xs"
    then show "\<not> is_upper (?xs ! n)" using assms by auto
  qed
  then show ?thesis using assms(1,2) by (simp add: upper_count_def)
qed

lemma backtrack_Some:
  "backtrack ualnum s pos k = Some e \<Longrightarrow> boundary_at ualnum s e \<and> pos < e \<and> e \<le> pos + k"
  by (induction k) (auto split: if_splits)

lemma inner_no_boundary:
  assumes "\<forall>j<m. is_upper (s ! (pos + j))" "pos + m \<le> length s" "0 < n" "n < m"
  shows "\<not> boundary_at ualnum s (pos + n)"
proof -
  have "n - 1 < m" "n < m" using assms by auto
  with assms(1) have "is_upper (s ! (pos + (n - 1)))" "is_upper (s ! (pos + n))"
    by blast+
  moreover have "pos + (n - 1) = pos + n - 1" using assms(3) by simp
  ultimately have "is_word ualnum (s ! (pos + n - 1))" "is_word ualnum (s ! (pos + n))"
    by (auto dest: is_upper_word)
  then show ?thesis using assms by (simp add: boundary_at_def)
qed

lemma match_at_candidate:
  assumes "match_at ualnum s pos = Some e"
  shows "pos < e \<and> candidate_at ualnum s pos (e - pos)"
proof -
  let ?m = "upper_count s pos"
  from assms have b0: "boundary_at ualnum s pos"
    and bt: "backtrack ualnum s pos ?m = Some e"
    by (auto simp: match_at_def split: if_splits)
  from backtrack_Some [OF bt] have be: "boundary_at ualnum s e" and lt: "pos < e" and le: "e \<le> pos + ?m"
    by auto
  have up: "\<forall>j<?m. is_upper (s ! (pos + j))" by (simp add: upper_count_upper)
  have m5: "?m \<le> 5" by (rule upper_count_le)
  have mpos: "0 < ?m" using lt le by linarith
  have inl: "pos + ?m \<le> length s" using upper_count_in [of pos s] mpos by (auto simp: max_def split: if_splits)
  have e: "e = pos + ?m"
  proof (rule ccontr)
    assume "e \<noteq> pos + ?m"
    then have "0 < e - pos" "e - pos < ?m" using lt le by auto
    from inner_no_boundary [OF up inl this] be lt show False by simp
  qed
  have w0: "is_word ualnum (s ! pos)" using up mpos is_upper_word by fastforce
  have "?m - 1 < ?m" using mpos by simp
  with up have "is_upper (s ! (pos + (?m - 1)))" by blast
  moreover have "pos + (?m - 1) = pos + ?m - 1" using mpos by simp
  ultimately have wl: "is_word ualnum (s ! (pos + ?m - 1))"
    by (auto dest: is_upper_word)
  have before: "pos = 0 \<or> \<not> is_upper (s ! (pos - 1))"
    using b0 w0 inl mpos by (auto simp: boundary_at_def dest: is_upper_word)
  have after: "pos + ?m = length s \<or> \<not> is_upper (s ! (pos + ?m))"
    using be wl inl mpos unfolding e by (auto simp: boundary_at_def dest: is_upper_word)
  show ?thesis
    using lt e m5 mpos inl up before after b0 be
    by (simp add: candidate_at_def slice_upper_iff)
qed

lemma candidate_maximal:
  assumes "candidate_at ualnum s i n"
  shows "(i = 0 \<or> \<not> is_upper (s ! (i - 1))) \<and> (i + n = length s \<or> \<not> is_upper (s ! (i + n)))"
proof -
  from assms have n: "1 \<le> n" "i + n \<le> length s"
    and sl: "list_all is_upper (slice s i (i + n))"
    and b0: "boundary_at ualnum s i" and be: "boundary_at ualnum s (i + n)"
    by (simp_all add: candidate_at_def)
  from sl n(2) have up: "\<forall>j<n. is_upper (s ! (i + j))"
    by (simp add: slice_upper_iff)
  have "0 < n" "n - 1 < n" using n(1) by auto
  with up have "is_upper (s ! (i + 0))" "is_upper (s ! (i + (n - 1)))" by blast+
  moreover have "i + (n - 1) = i + n - 1" using n(1) by simp
  ultimately have w0: "is_word ualnum (s ! i)" and wl: "is_word ualnum (s ! (i + n - 1))"
    by (auto dest: is_upper_word)
  have "i = 0 \<or> \<not> is_upper (s ! (i - 1))"
    using b0 w0 n by (auto simp: boundary_at_def dest: is_upper_word)
  moreover have "i + n = length s \<or> \<not> is_upper (s ! (i + n))"
    using be wl n by (auto simp: boundary_at_def dest: is_upper_word)
  ultimately show ?thesis by simp
qed

lemma candidate_match_at:
  assumes "candidate_at ualnum s pos n"
  shows "match_at ualnum s pos = Some (pos + n)"
proof -
  from assms have n: "1 \<le> n" "n \<le> 5" "pos + n \<le> length s"
    and sl: "list_all is_upper (slice s pos (pos + n))"
    and b0: "boundary_at ualnum s pos" and be: "boundary_at ualnum s (pos + n)"
    by (simp_all add: candidate_at_def)
  from sl n(3) have up: "\<forall>j<n. is_upper (s ! (pos + j))"
    by (simp add: slice_upper_iff)
  from candidate_maximal [OF assms]
  have after: "pos + n = length s \<or> \<not> is_upper (s ! (pos + n))" by simp
  have "upper_count s pos = n"
    using n(2,3) up after by (intro upper_count_eq) auto
  moreover obtain k where "n = Suc k" using n(1) by (cases n) auto
  ultimately show ?thesis using b0 be by (simp add: match_at_def)
qed

lemma candidate_unique:
  "candidate_at ualnum s i n \<Longrightarrow> candidate_at ualnum s i m \<Longrightarrow> n = m"
  by (drule candidate_match_at)+ simp

lemma no_candidate_inside:
  assumes "candidate_at ualnum s i n" "i < j" "j < i + n"
  shows "\<not> candidate_at ualnum s j m"
proof -
  from assms(1) have n: "i + n \<le> length s"
    and sl: "list_all is_upper (slice s i (i + n))"
    by (simp_all add: candidate_at_def)
  from sl n have up: "\<forall>k<n. is_upper (s ! (i + k))"
    by (simp add: slice_upper_iff)
  have "0 < j - i" "j - i < n" using assms(2,3) by auto
  from inner_no_boundary [OF up n this] assms(2)
  have "\<not> boundary_at ualnum s j" by simp
  then show ?thesis by (simp add: candidate_at_def)
qed

lemma filter_single:
  assumes "distinct xs" "n \<in> set xs" "P n" "\<forall>m\<in>set xs. P m \<longrightarrow> m = n"
  shows "filter P xs = [n]"
proof -
  from assms(2) obtain ys zs where xs: "xs = ys @ n # zs"
    by (auto simp: in_set_conv_decomp)
  with assms(1) have nys: "n \<notin> set ys" and nzs: "n \<notin> set zs" by auto
  have "filter P ys = []"
    unfolding filter_empty_conv using assms(4) nys xs by auto
  moreover have "filter P zs = []"
    unfolding filter_empty_conv using assms(4) nzs xs by auto
  ultimately show ?thesis using assms(3) xs by simp
qed

lemma candidates_at_None:
  assumes "match_at ualnum s i = None"
  shows "candidates_at ualnum s i = []"
proof -
  have "\<not> candidate_at ualnum s i n" for n
    using candidate_match_at [of ualnum s i n] assms by auto
  then show ?thesis by (simp add: candidates_at_def)
qed

lemma candidates_at_Some:
  assumes "match_at ualnum s i = Some e"
  shows "candidates_at ualnum s i = [slice s i e]"
proof -
  from match_at_candidate [OF assms]
  have lt: "i < e" and c: "candidate_at ualnum s i (e - i)" by auto
  from c have "1 \<le> e - i" "e - i \<le> 5" by (simp_all add: candidate_at_def)
  then have mem: "e - i \<in> set [1..<6]" by simp
  have uniq: "\<forall>m\<in>set [1..<6]. candidate_at ualnum s i m \<longrightarrow> m = e - i"
    using candidate_unique [OF _ c] by blast
  have "distinct [1..<6::nat]" by simp
  from filter_single [OF this mem c uniq]
  have "filter (candidate_at ualnum s i) [1..<6] = [e - i]" .
  then show ?thesis using lt by (simp add: candidates_at_def)
qed

lemma candidates_from_end: "length s \<le> pos \<Longrightarrow> candidates_from ualnum s pos = []"
  by (simp add: candidates_from_def)

lemma candidates_from_step:
  "pos < length s \<Longrightarrow>
     candidates_from ualnum s pos = candidates_at ualnum s pos @ candidates_from ualnum s (Suc pos)"
  by (simp add: candidates_from_def upt_conv_Cons)

lemma candidates_from_skip:
  assumes "candidate_at ualnum s i n" "i < j" "j \<le> i + n"
  shows "candidates_from ualnum s j = candidates_from ualnum s (i + n)"
  using assms(2,3)
proof (induction "i + n - j" arbitrary: j)
  case 0
  then show ?case by simp
next
  case (Suc d)
  then have lt: "j < i + n" by simp
  have "i + n \<le> length s" using assms(1) by (simp add: candidate_at_def)
  with lt have "j < length s" by simp
  moreover have "candidates_at ualnum s j = []"
    using no_candidate_inside [OF assms(1) Suc.prems(1) lt]
    by (simp add: candidates_at_def filter_empty_conv)
  moreover have "candidates_from ualnum s (Suc j) = candidates_from ualnum s (i + n)"
    using Suc by (intro Suc.hyps(1)) auto
  ultimately show ?case by (simp add: candidates_from_step)
qed

lemma findall_from_candidates:
  "findall_from ualnum s pos = candidates_from ualnum s pos"
proof (induction ualnum s pos rule: findall_from.induct)
  case (1 ualnum s pos)
  show ?case
  proof (cases "length s < pos")
    case True
    then show ?thesis by (simp add: findall_from.simps candidates_from_end)
  next
    case False
    show ?thesis
    proof (cases "match_at ualnum s pos")
      case None
      with False 1 have "findall_from ualnum s pos = candidates_from ualnum s (Suc pos)"
        by (simp add: findall_from.simps)
      also have "\<dots> = candidates_from ualnum s pos"
      proof (cases "pos < length s")
        case True
        then show ?thesis by (simp add: candidates_from_step candidates_at_None [OF None])
      next
        case False
        then show ?thesis by (simp add: candidates_from_end)
      qed
      finally show ?thesis .
    next
      case (Some e)
      from match_at_candidate [OF Some]
      have lt: "pos < e" and c: "candidate_at ualnum s pos (e - pos)" by auto
      then have e: "e \<le> length s" by (simp add: candidate_at_def)
      from False Some 1 have "findall_from ualnum s pos = slice s pos e # candidates_from ualnum s e"
        by (simp add: findall_from.simps)
      also have "candidates_from ualnum s e = candidates_from ualnum s (Suc pos)"
        using candidates_from_skip [OF c, of "Suc pos"] lt by simp
      also have "slice s pos e # candidates_from ualnum s (Suc pos) = candidates_from ualnum s pos"
        using lt e by (simp add: candidates_from_step candidates_at_Some [OF Some])
      finally show ?thesis .
    qed
  qed
qed

lemma findall_candidates: "findall ualnum s = candidates ualnum s"
  by (simp add: findall_def candidates_def findall_from_candidates)

section \<open>Properties of the extractor\<close>

lemma ticker_loop_find:
  "ticker_loop s ts =
     (if context_marker s then List.find (\<lambda>t. t \<notin> common_non_tickers) ts else None)"
  by (induction ts) auto

lemma find_filter:
  "List.find P xs = (if filter P xs = [] then None else Some (hd (filter P xs)))"
  by (induction xs) auto

lemma candidates_empty_iff:
  "candidates ualnum s = [] \<longleftrightarrow> (\<forall>i n. \<not> candidate_at ualnum s i n)"
proof
  assume e: "candidates ualnum s = []"
  show "\<forall>i n. \<not> candidate_at ualnum s i n"
  proof (intro allI notI)
    fix i n assume c: "candidate_at ualnum s i n"
    then have "i < length s" "n \<in> set [1..<6]" by (auto simp: candidate_at_def)
    with c have "candidates_at ualnum s i \<noteq> []"
      by (auto simp: candidates_at_def filter_empty_conv)
    with \<open>i < length s\<close> e show False
      by (auto simp: candidates_def candidates_from_def)
  qed
next
  assume "\<forall>i n. \<not> candidate_at ualnum s i n"
  then show "candidates ualnum s = []"
    by (simp add: candidates_def candidates_from_def candidates_at_def)
qed

lemma candidates_shape:
  assumes "t \<in> set (candidates ualnum s)"
  shows "1 \<le> length t \<and> length t \<le> 5 \<and> list_all is_upper t"
proof -
  from assms obtain i n where "candidate_at ualnum s i n" "t = slice s i (i + n)"
    by (auto simp: candidates_def candidates_from_def candidates_at_def)
  then show ?thesis by (auto simp: candidate_at_def slice_def)
qed

lemma ticker_loop_mem: "ticker_loop s ts = Some t \<Longrightarrow> t \<in> set ts"
  by (induction ts) (auto split: if_splits)

lemma find_ticker_mem:
  "find_ticker_in_response ualnum s = Some t \<Longrightarrow> t \<in> set (findall ualnum s)"
  by (auto simp: find_ticker_in_response_def Let_def split: if_splits dest: ticker_loop_mem)

lemmas run_defs =
  findall_def findall_from.simps match_at_def boundary_at_def is_word_def upper_count_def
  is_upper_def slice_def ascii_def context_marker_def str_contains_def sublist_code
  prefix_code common_non_tickers_def find_ticker_in_response_def

lemmas spec_defs =
  candidates_def candidates_from_def candidates_at_def candidate_at_def qualifying_def
  boundary_at_def is_word_def is_upper_def slice_def ascii_def context_marker_def
  str_contains_def sublist_code prefix_code common_non_tickers_def

text \<open>
  C1. When the text has a qualifying candidate and shows a context marker, the result is
  the first qualifying candidate from the left.
\<close>
theorem extract_first_qualifying:
  assumes "qualifying ualnum s \<noteq> []" and "context_marker s"
  shows "find_ticker_in_response ualnum s = Some (hd (qualifying ualnum s))"
proof -
  have "findall ualnum s \<noteq> []"
    using assms(1) by (auto simp: qualifying_def findall_candidates)
  then show ?thesis
    using assms
    by (simp add: find_ticker_in_response_def ticker_loop_find find_filter
        qualifying_def findall_candidates)
qed

theorem extract_first_qualifying_witness:
  "qualifying (\<lambda>c. False) (ascii ''The CEO of MSFT beat AAPL. Financial Data'') \<noteq> []
   \<and> context_marker (ascii ''The CEO of MSFT beat AAPL. Financial Data'')
   \<and> find_ticker_in_response (\<lambda>c. False) (ascii ''The CEO of MSFT beat AAPL. Financial Data'')
       = Some (ascii ''MSFT'')"
proof -
  let ?s = "ascii ''The CEO of MSFT beat AAPL. Financial Data''"
  have q: "qualifying (\<lambda>c. False) ?s = [ascii ''MSFT'', ascii ''AAPL'']"
    unfolding qualifying_def findall_candidates [symmetric] by (simp add: run_defs)
  have m: "context_marker ?s"
    by (simp add: spec_defs)
  from q have ne: "qualifying (\<lambda>c. False) ?s \<noteq> []" by simp
  from extract_first_qualifying [OF ne m] q ne m show ?thesis by simp
qed

text \<open>
  C2. When the text has a qualifying candidate but shows no context marker, the result
  is nothing: no path returns a candidate without the marker.
\<close>
theorem extract_needs_marker:
  assumes "qualifying ualnum s \<noteq> []" and "\<not> context_marker s"
  shows "find_ticker_in_response ualnum s = None"
  using assms(2) by (simp add: find_ticker_in_response_def Let_def ticker_loop_find)

theorem extract_needs_marker_witness:
  "qualifying (\<lambda>c. False) (ascii ''MSFT is a great company'') \<noteq> []
   \<and> \<not> context_marker (ascii ''MSFT is a great company'')
   \<and> find_ticker_in_response (\<lambda>c. False) (ascii ''MSFT is a great company'') = None"
proof -
  let ?s = "ascii ''MSFT is a great company''"
  have q: "qualifying (\<lambda>c. False) ?s = [ascii ''MSFT'']"
    unfolding qualifying_def findall_candidates [symmetric] by (simp add: run_defs)
  have m: "\<not> context_marker ?s"
    by (simp add: spec_defs)
  from q have ne: "qualifying (\<lambda>c. False) ?s \<noteq> []" by simp
  from extract_needs_marker [OF ne m] ne m show ?thesis by simp
qed

text \<open>
  C3. When every candidate of the text is in the exclusion set, the result is nothing,
  whether or not the text shows a context marker.
\<close>
theorem extract_all_excluded:
  assumes "set (candidates ualnum s) \<subseteq> common_non_tickers"
  shows "find_ticker_in_response ualnum s = None"
proof -
  from assms have "filter (\<lambda>t. t \<notin> common_non_tickers) (findall ualnum s) = []"
    by (auto simp: findall_candidates filter_empty_conv)
  then show ?thesis
    by (simp add: find_ticker_in_response_def Let_def ticker_loop_find find_filter)
qed

theorem extract_all_excluded_witness:
  "set (candidates (\<lambda>c. False) (ascii ''The CEO of ETF Corp spoke today''))
     \<subseteq> common_non_tickers
   \<and> find_ticker_in_response (\<lambda>c. False) (ascii ''The CEO of ETF Corp spoke today'') = None
   \<and> set (candidates (\<lambda>c. False) (ascii ''USA ETF Financial Data''))
     \<subseteq> common_non_tickers
   \<and> context_marker (ascii ''USA ETF Financial Data'')
   \<and> find_ticker_in_response (\<lambda>c. False) (ascii ''USA ETF Financial Data'') = None"
proof -
  let ?s = "ascii ''The CEO of ETF Corp spoke today''"
  let ?r = "ascii ''USA ETF Financial Data''"
  have cs: "candidates (\<lambda>c. False) ?s = [ascii ''CEO'', ascii ''ETF'']"
    unfolding findall_candidates [symmetric] by (simp add: run_defs)
  have cr: "candidates (\<lambda>c. False) ?r = [ascii ''USA'', ascii ''ETF'']"
    unfolding findall_candidates [symmetric] by (simp add: run_defs)
  have hs: "set (candidates (\<lambda>c. False) ?s) \<subseteq> common_non_tickers"
    unfolding cs by (simp add: common_non_tickers_def)
  have hr: "set (candidates (\<lambda>c. False) ?r) \<subseteq> common_non_tickers"
    unfolding cr by (simp add: common_non_tickers_def)
  have m: "context_marker ?r"
    by (simp add: spec_defs)
  from extract_all_excluded [OF hs] extract_all_excluded [OF hr] hs hr m
  show ?thesis by blast
qed

text \<open>
  C4. A text without any run of one to five capitals between word boundaries, and the
  empty text in particular, gives nothing.
\<close>
theorem extract_no_candidate:
  "((\<forall>i n. \<not> candidate_at ualnum s i n) \<longrightarrow> find_ticker_in_response ualnum s = None)
   \<and> find_ticker_in_response ualnum [] = None"
proof -
  have "find_ticker_in_response ualnum s = None" if "\<forall>i n. \<not> candidate_at ualnum s i n" for s
  proof -
    from that have "findall ualnum s = []"
      by (simp add: findall_candidates candidates_empty_iff)
    then show ?thesis by (simp add: find_ticker_in_response_def)
  qed
  moreover have "\<forall>i n. \<not> candidate_at ualnum [] i n"
    by (simp add: candidate_at_def)
  ultimately show ?thesis by blast
qed

theorem extract_no_candidate_witness:
  "(\<forall>i n. \<not> candidate_at (\<lambda>c. False) (ascii ''Apple rose 3% today'') i n)
   \<and> find_ticker_in_response (\<lambda>c. False) (ascii ''Apple rose 3% today'') = None
   \<and> find_ticker_in_response (\<lambda>c. False) (ascii []) = None"
proof -
  let ?s = "ascii ''Apple rose 3% today''"
  have "candidates (\<lambda>c. False) ?s = []"
    unfolding findall_candidates [symmetric] by (simp add: run_defs)
  then have h: "\<forall>i n. \<not> candidate_at (\<lambda>c. False) ?s i n"
    by (simp add: candidates_empty_iff)
  from extract_no_candidate [of "\<lambda>c. False" ?s] h show ?thesis
    by (simp add: ascii_def)
qed

text \<open>
  C5. On the text \<^verbatim>\<open>AAPL price: $150\<close>, a newline, \<^verbatim>\<open>---|---|\<close>, a newline, the result is
  \<^verbatim>\<open>AAPL\<close>, whatever the Unicode table says.
\<close>
theorem scenario_aapl:
  "find_ticker_in_response ualnum (ascii ''AAPL price: $150\<newline>---|---|\<newline>'')
     = Some (ascii ''AAPL'')"
  by (simp add: run_defs)

text \<open>
  C8. The extractor is a total function without an error value. The scan terminates on
  every text (the termination proof of \<open>findall_from\<close>) and yields exactly the list of the
  candidates, which may be empty; the result is either nothing or one of the scanned
  candidates, a run of one to five capitals; and the empty text gives nothing.
\<close>

theorem extract_total:
  "findall ualnum s = candidates ualnum s
   \<and> (find_ticker_in_response ualnum s = None
      \<or> (\<exists>t. find_ticker_in_response ualnum s = Some t \<and> t \<in> set (findall ualnum s)
            \<and> 1 \<le> length t \<and> length t \<le> 5 \<and> list_all is_upper t))
   \<and> find_ticker_in_response ualnum [] = None"
proof -
  have "t \<in> set (findall ualnum s) \<and> 1 \<le> length t \<and> length t \<le> 5 \<and> list_all is_upper t"
    if "find_ticker_in_response ualnum s = Some t" for t
    using find_ticker_mem [OF that] candidates_shape [of t ualnum s]
    by (simp add: findall_candidates)
  moreover have "find_ticker_in_response ualnum [] = None"
    by (simp add: run_defs)
  ultimately show ?thesis
    using findall_candidates [of ualnum s]
    by (cases "find_ticker_in_response ualnum s") auto
qed

text \<open>
  C9. The extractor equals the simpler function that tests the context marker once and
  then takes the first extracted candidate outside the exclusion set.
\<close>
theorem extract_is_simple:
  "find_ticker_in_response ualnum s = extract_simple ualnum s"
  by (cases "findall ualnum s")
     (simp_all add: find_ticker_in_response_def extract_simple_def ticker_loop_find)

section \<open>Properties of the chart step and of an interaction\<close>

lemmas app_defs =
  handle_prompt_def agent_step_def record_and_chart_def maybe_trigger_chart_def
  display_stock_chart_def emit_def stream_calls_def Let_def

lemma display_stock_chart_requests:
  "chart_requests (fst (display_stock_chart ticker yf_tools w)) = chart_requests w @ [[ticker]]"
  by (simp add: display_stock_chart_def emit_def Let_def split: sum.splits)

lemma maybe_trigger_chart_None: "maybe_trigger_chart None yf_tools w = (w, None)"
  by (simp add: maybe_trigger_chart_def)

text \<open>
  The chart service is requested exactly when the answer yields a ticker; the second
  lemma runs a whole interaction on a small answer with a table.
\<close>

lemma ticker_triggers_chart:
  assumes "agent_run prompt = Inr response"
    and "response_content response = Some c"
    and "find_ticker_in_response ualnum c = Some t"
  shows "chart_requests (fst (handle_prompt agent_run yf_tools ualnum prompt w))
           = chart_requests w @ [[t]]"
proof -
  from find_ticker_mem [OF assms(3)] have "t \<in> set (candidates ualnum c)"
    by (simp add: findall_candidates)
  from candidates_shape [OF this] have "t \<noteq> []" by auto
  with assms show ?thesis
    by (simp add: handle_prompt_def agent_step_def record_and_chart_def maybe_trigger_chart_def
        display_stock_chart_requests)
qed

lemma example_interaction:
  "handle_prompt
     (\<lambda>p. Inr (Has_content (Some (ascii ''AAPL: $150\<newline>---|---|''))))
     (\<lambda>ts. Inr [(ascii ''AAPL'', [\<lparr>timestamp = Val 1700000000, close = Val 150\<rparr>,
                                  \<lparr>timestamp = Val 1700086400, close = NaN\<rparr>])])
     (\<lambda>c. False) (ascii ''AAPL?'')
     \<lparr>messages = [], page = [], chart_requests = []\<rparr>
   = (\<lparr>messages = [(ascii ''user'', ascii ''AAPL?''),
                    (ascii ''assistant'', ascii ''AAPL: $150\<newline>---|---|'')],
        page = [St_chat_message (ascii ''user''), St_markdown (ascii ''AAPL?'') False,
                St_chat_message (ascii ''assistant''), St_empty,
                St_markdown (ascii ''AAPL:'' @ cursor) True,
                St_markdown (ascii ''AAPL: $150'' @ cursor) True,
                St_markdown (ascii ''AAPL: $150\<newline>---|'' @ cursor) True,
                St_markdown (ascii ''AAPL: $150\<newline>---|---|'' @ cursor) True,
                St_markdown (ascii ''AAPL: $150\<newline>---|---|'') True,
                St_write (ascii ''--- Generating Chart for AAPL ---''),
                St_plotly_chart (ascii ''Recent Stock Price Trend for AAPL'')
                  [(1700000000, 150)]],
        chart_requests = [[ascii ''AAPL'']]\<rparr>, None)"
  by (simp add: app_defs run_defs has_column_def dropna_def is_val_def the_val_def upt_rec)

text \<open>
  C6, as the code has it. When the chart service raises an instance of \<^verbatim>\<open>Exception\<close>, the
  chart step reports it on the page with \<^verbatim>\<open>st.error\<close> and returns normally: no exception
  leaves \<open>display_stock_chart\<close>, nor the step of the interaction that calls it.
\<close>

theorem chart_failure_reported:
  assumes "yf_tools [ticker] = Inl (Exception msg)"
  shows "display_stock_chart ticker yf_tools w =
           (w\<lparr>page := page w
                 @ [St_write (ascii ''--- Generating Chart for '' @ ticker @ ascii '' ---''),
                    St_error (warning_sign @ ascii '' Error displaying stock chart for ''
                                @ ticker @ ascii '': '' @ msg)],
              chart_requests := chart_requests w @ [[ticker]]\<rparr>, None)
         \<and> snd (maybe_trigger_chart (Some ticker) yf_tools w) = None"
  using assms by (simp add: maybe_trigger_chart_def display_stock_chart_def emit_def)

theorem chart_failure_reported_witness:
  "(\<lambda>ts. Inl (Exception (ascii ''timeout''))) [ascii ''NVDA'']
     = (Inl (Exception (ascii ''timeout'')) :: exn + stock_data)
   \<and> display_stock_chart (ascii ''NVDA'') (\<lambda>ts. Inl (Exception (ascii ''timeout'')))
         \<lparr>messages = [], page = [], chart_requests = []\<rparr>
       = (\<lparr>messages = [],
            page = [St_write (ascii ''--- Generating Chart for NVDA ---''),
                    St_error (warning_sign @ ascii '' Error displaying stock chart for NVDA: timeout'')],
            chart_requests = [[ascii ''NVDA'']]\<rparr>, None)"
  using chart_failure_reported [of "\<lambda>ts. Inl (Exception (ascii ''timeout''))" "ascii ''NVDA''"
      "ascii ''timeout''" "\<lparr>messages = [], page = [], chart_requests = []\<rparr>"]
  by (simp add: ascii_def)

text \<open>
  An exception of the chart service that is no instance of \<^verbatim>\<open>Exception\<close> passes the handler:
  it leaves \<open>display_stock_chart\<close>, and nothing is reported.
\<close>

theorem chart_failure_escapes:
  "display_stock_chart (ascii ''NVDA'') (\<lambda>ts. Inl (Other_BaseException (ascii ''exit'')))
     \<lparr>messages = [], page = [], chart_requests = []\<rparr>
   = (\<lparr>messages = [],
        page = [St_write (ascii ''--- Generating Chart for NVDA ---'')],
        chart_requests = [[ascii ''NVDA'']]\<rparr>,
      Some (Other_BaseException (ascii ''exit'')))"
  by (simp add: display_stock_chart_def emit_def ascii_def)

text \<open>
  C7. Without a candidate the chart step does nothing; and an interaction whose answer
  yields no ticker makes no request to the chart service.
\<close>

theorem no_ticker_no_chart:
  assumes "agent_run prompt = Inr response"
    and "response_content response = Some c"
    and "find_ticker_in_response ualnum c = None"
  shows "maybe_trigger_chart (find_ticker_in_response ualnum c) yf_tools w = (w, None)
         \<and> chart_requests (fst (handle_prompt agent_run yf_tools ualnum prompt w))
             = chart_requests w
         \<and> snd (handle_prompt agent_run yf_tools ualnum prompt w) = None"
  using assms
  by (simp add: handle_prompt_def agent_step_def record_and_chart_def maybe_trigger_chart_None)

theorem no_ticker_no_chart_witness:
  "response_content (Has_content (Some (ascii ''MSFT is a great company'')))
     = Some (ascii ''MSFT is a great company'')
   \<and> find_ticker_in_response (\<lambda>c. False) (ascii ''MSFT is a great company'') = None
   \<and> chart_requests (fst (handle_prompt
          (\<lambda>p. Inr (Has_content (Some (ascii ''MSFT is a great company''))))
          (\<lambda>ts. Inr []) (\<lambda>c. False) (ascii ''Tell me about MSFT'')
          \<lparr>messages = [], page = [], chart_requests = []\<rparr>)) = []"
proof -
  let ?c = "ascii ''MSFT is a great company''"
  have r: "response_content (Has_content (Some ?c)) = Some ?c" by simp
  have n: "find_ticker_in_response (\<lambda>c. False) ?c = None"
    by (simp add: run_defs)
  from no_ticker_no_chart [of "\<lambda>p. Inr (Has_content (Some ?c))" "ascii ''Tell me about MSFT''"
      "Has_content (Some ?c)" ?c "\<lambda>c. False" "\<lambda>ts. Inr []"
      "\<lparr>messages = [], page = [], chart_requests = []\<rparr>", OF refl r n] r n
  show ?thesis by simp
qed

text \<open>
  C10, as the code has it. When the agent run raises, no request reaches the chart
  service, whatever the exception. When the exception is an instance of \<^verbatim>\<open>Exception\<close>, the
  interaction ends normally and the apology is recorded as the assistant's answer.
\<close>

theorem agent_failure_no_chart:
  assumes "agent_run prompt = Inl e"
  shows "chart_requests (fst (handle_prompt agent_run yf_tools ualnum prompt w)) = chart_requests w
         \<and> (is_Exception e \<longrightarrow>
              snd (handle_prompt agent_run yf_tools ualnum prompt w) = None
              \<and> messages (fst (handle_prompt agent_run yf_tools ualnum prompt w))
                  = messages w
                    @ [(ascii ''user'', prompt),
                       (ascii ''assistant'',
                        ascii ''Sorry, I encountered an error processing your request: ''
                          @ exn_str e)])"
  using assms
  by (simp add: handle_prompt_def agent_step_def record_and_chart_def maybe_trigger_chart_None
      Let_def)

theorem agent_failure_no_chart_witness:
  "is_Exception (Exception (ascii ''quota exceeded''))
   \<and> handle_prompt (\<lambda>p. Inl (Exception (ascii ''quota exceeded'')))
        (\<lambda>ts. Inr []) (\<lambda>c. False) (ascii ''AAPL'')
        \<lparr>messages = [], page = [], chart_requests = []\<rparr>
     = (\<lparr>messages =
            [(ascii ''user'', ascii ''AAPL''),
             (ascii ''assistant'',
              ascii ''Sorry, I encountered an error processing your request: quota exceeded'')],
          page =
            [St_chat_message (ascii ''user''), St_markdown (ascii ''AAPL'') False,
             St_chat_message (ascii ''assistant''), St_empty,
             St_error (warning_sign @ ascii '' An error occurred: quota exceeded''),
             St_markdown
               (ascii ''Sorry, I encountered an error processing your request: quota exceeded'')
               False],
          chart_requests = []\<rparr>, None)"
proof -
  let ?h = "handle_prompt (\<lambda>p. Inl (Exception (ascii ''quota exceeded'')))
        (\<lambda>ts. Inr []) (\<lambda>c. False) (ascii ''AAPL'')
        \<lparr>messages = [], page = [], chart_requests = []\<rparr>"
  from agent_failure_no_chart [of "\<lambda>p. Inl (Exception (ascii ''quota exceeded''))"
      "ascii ''AAPL''" "Exception (ascii ''quota exceeded'')" "\<lambda>ts. Inr []" "\<lambda>c. False"
      "\<lparr>messages = [], page = [], chart_requests = []\<rparr>"]
  have "chart_requests (fst ?h) = []" "snd ?h = None"
    "messages (fst ?h) = [(ascii ''user'', ascii ''AAPL''),
             (ascii ''assistant'',
              ascii ''Sorry, I encountered an error processing your request: quota exceeded'')]"
    by (simp_all add: ascii_def)
  moreover have "page (fst ?h) = [St_chat_message (ascii ''user''), St_markdown (ascii ''AAPL'') False,
             St_chat_message (ascii ''assistant''), St_empty,
             St_error (warning_sign @ ascii '' An error occurred: quota exceeded''),
             St_markdown
               (ascii ''Sorry, I encountered an error processing your request: quota exceeded'')
               False]"
    by (simp add: app_defs ascii_def)
  ultimately show ?thesis
    by (cases ?h, cases "fst ?h") simp
qed

text \<open>
  An exception of the agent run that is no instance of \<^verbatim>\<open>Exception\<close> passes the handler:
  it leaves the interaction, and no answer of the assistant is recorded.
\<close>

theorem agent_failure_escapes:
  "handle_prompt (\<lambda>p. Inl (Other_BaseException (ascii ''exit'')))
     (\<lambda>ts. Inr []) (\<lambda>c. False) (ascii ''AAPL'')
     \<lparr>messages = [], page = [], chart_requests = []\<rparr>
   = (\<lparr>messages = [(ascii ''user'', ascii ''AAPL'')],
        page = [St_chat_message (ascii ''user''), St_markdown (ascii ''AAPL'') False,
                St_chat_message (ascii ''assistant''), St_empty],
        chart_requests = []\<rparr>,
      Some (Other_BaseException (ascii ''exit'')))"
  by (simp add: handle_prompt_def agent_step_def)

end
